theory Spec2Isabelle
  imports Main "HOL-Library.Word"
begin

section \<open>JavaScript strings\<close>

text \<open>
  A JavaScript string is a sequence of 16-bit code units; \<open>length\<close> counts code units and
  \<open>===\<close> / \<open>!==\<close> compare the sequences. String literals of the source are all ASCII and
  are written \<open>lit ''...''\<close>.
\<close>

type_synonym code_unit = "16 word"
type_synonym jsstring = "code_unit list"

definition lit :: "string \<Rightarrow> jsstring" where
  "lit s = map of_char s"

text \<open>
  The code units that ECMAScript calls WhiteSpace or LineTerminator: TAB, LF, VT, FF, CR, SP,
  NBSP, the other space separators (U+1680, U+2000..U+200A, U+202F, U+205F, U+3000), LS, PS
  and the byte order mark. Both \<open>String.prototype.trim\<close> and the regular expression
  class \<open>\s\<close> use exactly this set.
\<close>

definition isWhiteSpace :: "code_unit \<Rightarrow> bool" where
  "isWhiteSpace c \<longleftrightarrow>
     c = 0x0009 \<or> c = 0x000A \<or> c = 0x000B \<or> c = 0x000C \<or> c = 0x000D \<or> c = 0x0020 \<or>
     c = 0x00A0 \<or> c = 0x1680 \<or> (0x2000 \<le> c \<and> c \<le> 0x200A) \<or>
     c = 0x2028 \<or> c = 0x2029 \<or> c = 0x202F \<or> c = 0x205F \<or> c = 0x3000 \<or> c = 0xFEFF"

text \<open>\<open>value.trim()\<close>: white space is removed from both ends.\<close>

definition trim :: "jsstring \<Rightarrow> jsstring" where
  "trim s = rev (dropWhile isWhiteSpace (rev (dropWhile isWhiteSpace s)))"

text \<open>
  Truthiness of a \<open>string | null\<close> value as tested by \<open>if (error)\<close> and
  \<open>errors[f] && ...\<close>: \<open>null\<close>, \<open>undefined\<close> and the empty string are falsy.
\<close>

definition truthy :: "jsstring option \<Rightarrow> bool" where
  "truthy v = (case v of None \<Rightarrow> False | Some s \<Rightarrow> s \<noteq> [])"

section \<open>The regular expression of the two email checks\<close>

text \<open>
  Both forms test the literal \<open>/^[^\s@]+@[^\s@]+\.[^\s@]+$/\<close>. It has no flags, so
  \<open>^\<close> and \<open>$\<close> anchor at the two ends of the input, a class matches one code unit, and
  \<open>.test\<close> keeps no position between calls. The pattern is a sequence of single-code-unit
  classes, each taken once or with \<open>+\<close>. \<open>regex_test\<close> is the backtracking matcher on
  such a sequence: a \<open>+\<close> item takes one code unit, then first tries to take more (greedy)
  and otherwise goes on with the rest of the pattern; the empty pattern is the \<open>$\<close>.
\<close>

datatype quant = Once | OneOrMore

type_synonym regex = "((code_unit \<Rightarrow> bool) \<times> quant) list"

fun regex_test :: "regex \<Rightarrow> jsstring \<Rightarrow> bool" where
  "regex_test [] s = (s = [])"
| "regex_test ((p, q) # r) [] = False"
| "regex_test ((p, Once) # r) (c # s) = (p c \<and> regex_test r s)"
| "regex_test ((p, OneOrMore) # r) (c # s) =
     (p c \<and> (regex_test ((p, OneOrMore) # r) s \<or> regex_test r s))"

text \<open>The class \<open>[^\s@]\<close>, and the literals \<open>@\<close> (U+0040) and \<open>\.\<close> (U+002E).\<close>

definition notSpaceAt :: "code_unit \<Rightarrow> bool" where
  "notSpaceAt c \<longleftrightarrow> \<not> (isWhiteSpace c \<or> c = 0x40)"

definition isAt :: "code_unit \<Rightarrow> bool" where
  "isAt c \<longleftrightarrow> c = 0x40"

definition isDot :: "code_unit \<Rightarrow> bool" where
  "isDot c \<longleftrightarrow> c = 0x2E"

definition emailRegex :: regex where
  "emailRegex =
     [(notSpaceAt, OneOrMore), (isAt, Once), (notSpaceAt, OneOrMore), (isDot, Once),
      (notSpaceAt, OneOrMore)]"

text \<open>
  The pattern as the specification reads it: one or more code units that are neither white
  space nor \<open>@\<close>, then \<open>@\<close>, then one or more such code units, then a dot, then one or
  more such code units, and nothing else.
\<close>

definition matches_email_pattern :: "jsstring \<Rightarrow> bool" where
  "matches_email_pattern s \<longleftrightarrow>
     (\<exists>l d t. s = l @ [0x40] @ d @ [0x2E] @ t \<and> l \<noteq> [] \<and> d \<noteq> [] \<and> t \<noteq> [] \<and>
        list_all notSpaceAt l \<and> list_all notSpaceAt d \<and> list_all notSpaceAt t)"

text \<open>The language of a pattern, used to relate the matcher to the reading above.\<close>

fun regex_lang :: "regex \<Rightarrow> jsstring set" where
  "regex_lang [] = {[]}"
| "regex_lang ((p, Once) # r) = {c # t | c t. p c \<and> t \<in> regex_lang r}"
| "regex_lang ((p, OneOrMore) # r) =
     {u @ t | u t. u \<noteq> [] \<and> list_all p u \<and> t \<in> regex_lang r}"

section \<open>Effects\<close>

text \<open>
  The two outside capabilities the forms call: \<open>toast({title, description})\<close> and
  \<open>navigate(path)\<close>. Every call is appended to a log kept in the state.
\<close>

datatype effect = Toast jsstring jsstring | Navigate jsstring

section \<open>The registration wizard (Register.tsx)\<close>

datatype field = Name | Email | Password | ConfirmPassword

record FormData =
  name :: jsstring
  email :: jsstring
  password :: jsstring
  confirmPassword :: jsstring

text \<open>\<open>formData[f]\<close> and \<open>{ ...formData, [f]: v }\<close> for a key \<open>f\<close> of FormData.\<close>

fun getField :: "FormData \<Rightarrow> field \<Rightarrow> jsstring" where
  "getField d Name = name d"
| "getField d Email = email d"
| "getField d Password = password d"
| "getField d ConfirmPassword = confirmPassword d"

fun setField :: "FormData \<Rightarrow> field \<Rightarrow> jsstring \<Rightarrow> FormData" where
  "setField d Name v = d\<lparr>name := v\<rparr>"
| "setField d Email v = d\<lparr>email := v\<rparr>"
| "setField d Password v = d\<lparr>password := v\<rparr>"
| "setField d ConfirmPassword v = d\<lparr>confirmPassword := v\<rparr>"

text \<open>
  The component's state: the three \<open>useState\<close> cells, and the log of effects.
  \<open>errors\<close> is a \<open>Partial<FormData>\<close>: a key may be absent. \<open>currentStep\<close> is a
  JavaScript number that only ever holds integers.
\<close>

record Register =
  currentStep :: int
  formData :: FormData
  errors :: "field \<rightharpoonup> jsstring"
  effects :: "effect list"

definition initial :: Register where
  "initial = \<lparr>currentStep = 0,
     formData = \<lparr>name = [], email = [], password = [], confirmPassword = []\<rparr>,
     errors = Map.empty, effects = []\<rparr>"

text \<open>
  \<open>steps\<close>: of each entry only \<open>field\<close> takes part in the logic (label, placeholder and
  input type are presentation). \<open>steps[currentStep]\<close> is \<open>undefined\<close> out of range, and
  reading \<open>.field\<close> of it throws: \<open>currentField\<close> is then \<open>None\<close>.
\<close>

definition steps :: "field list" where
  "steps = [Name, Email, Password, ConfirmPassword]"

definition currentField :: "Register \<Rightarrow> field option" where
  "currentField st =
     (if 0 \<le> currentStep st \<and> currentStep st < int (length steps)
      then Some (steps ! nat (currentStep st)) else None)"

text \<open>\<open>validateField\<close> reads \<open>formData.password\<close> of the current state; \<open>null\<close> is \<open>None\<close>.\<close>

fun validateField :: "FormData \<Rightarrow> field \<Rightarrow> jsstring \<Rightarrow> jsstring option" where
  "validateField d Name v =
     (if length (trim v) < 2 then Some (lit ''Name must be at least 2 characters'') else None)"
| "validateField d Email v =
     (if \<not> regex_test emailRegex v then Some (lit ''Please enter a valid email'') else None)"
| "validateField d Password v =
     (if length v < 8 then Some (lit ''Password must be at least 8 characters'') else None)"
| "validateField d ConfirmPassword v =
     (if v \<noteq> password d then Some (lit ''Passwords do not match'') else None)"

definition handleSubmit :: "Register \<Rightarrow> Register" where
  "handleSubmit st =
     st\<lparr>effects := effects st @
        [Toast (lit ''Account created!'') (lit ''Welcome to Meridian AI.''),
         Navigate (lit ''/'')]\<rparr>"

text \<open>
  \<open>handleNext\<close>. The state setters take effect together when the handler has run, so the
  success path is: clear the field's error, then either move on or submit.
\<close>

definition handleNext :: "Register \<Rightarrow> Register option" where
  "handleNext st =
     (case currentField st of
        None \<Rightarrow> None
      | Some f \<Rightarrow>
          (let value = getField (formData st) f;
               error = validateField (formData st) f value
           in if truthy error
              then Some (st\<lparr>errors := (errors st)(f := error)\<rparr>)
              else
                (let st1 = st\<lparr>errors := (errors st)(f \<mapsto> [])\<rparr>
                 in if currentStep st < int (length steps) - 1
                    then Some (st1\<lparr>currentStep := currentStep st + 1\<rparr>)
                    else Some (handleSubmit st1))))"

definition handleBack :: "Register \<Rightarrow> Register" where
  "handleBack st =
     (if currentStep st > 0 then st\<lparr>currentStep := currentStep st - 1\<rparr> else st)"

text \<open>\<open>handleKeyDown\<close>, on the value of \<open>e.key\<close>.\<close>

definition handleKeyDown :: "jsstring \<Rightarrow> Register \<Rightarrow> Register option" where
  "handleKeyDown key st = (if key = lit ''Enter'' then handleNext st else Some st)"

text \<open>The input's \<open>onChange\<close>, on the value of \<open>e.target.value\<close>.\<close>

definition onChange :: "jsstring \<Rightarrow> Register \<Rightarrow> Register option" where
  "onChange v st =
     (case currentField st of
        None \<Rightarrow> None
      | Some f \<Rightarrow>
          Some (st\<lparr>formData := setField (formData st) f v,
                   errors := (errors st)(f \<mapsto> [])\<rparr>))"

text \<open>The message rendered under the input: \<open>errors[currentField.field] && ...\<close>.\<close>

definition shownError :: "Register \<Rightarrow> jsstring option" where
  "shownError st =
     (case currentField st of
        None \<Rightarrow> None
      | Some f \<Rightarrow> (if truthy (errors st f) then errors st f else None))"

text \<open>
  The user's events on the wizard. \<open>handle\<close> is an event handled by the handlers of
  the render of the very state it changes, and \<open>run\<close> a sequence of events each
  handled so, by the latest render.
\<close>

datatype event = Change jsstring | Next | Back | KeyDown jsstring

fun handle :: "event \<Rightarrow> Register \<Rightarrow> Register option" where
  "handle (Change v) st = onChange v st"
| "handle Next st = handleNext st"
| "handle Back st = Some (handleBack st)"
| "handle (KeyDown k) st = handleKeyDown k st"

fun run :: "Register \<Rightarrow> event list \<Rightarrow> Register option" where
  "run st [] = Some st"
| "run st (e # es) = (case handle e st of None \<Rightarrow> None | Some st' \<Rightarrow> run st' es)"



text \<open>
  The handlers are closures of a render. A handler of the render \<open>r\<close> reads
  \<open>currentStep\<close>, \<open>formData\<close> and \<open>errors\<close> as \<open>r\<close> saw them, and the
  setters write the cells of the state \<open>s\<close> in which the event arrives;
  \<open>toast\<close> and \<open>navigate\<close> act on the world of \<open>s\<close>. The functions below are
  the handlers above with the two roles kept apart.
\<close>

definition onChange_of :: "Register \<Rightarrow> jsstring \<Rightarrow> Register \<Rightarrow> Register option" where
  "onChange_of r v s =
     (case currentField r of
        None \<Rightarrow> None
      | Some f \<Rightarrow>
          Some (s\<lparr>formData := setField (formData r) f v,
                  errors := (errors r)(f \<mapsto> [])\<rparr>))"

definition handleNext_of :: "Register \<Rightarrow> Register \<Rightarrow> Register option" where
  "handleNext_of r s =
     (case currentField r of
        None \<Rightarrow> None
      | Some f \<Rightarrow>
          (let value = getField (formData r) f;
               error = validateField (formData r) f value
           in if truthy error
              then Some (s\<lparr>errors := (errors r)(f := error)\<rparr>)
              else
                (let s1 = s\<lparr>errors := (errors r)(f \<mapsto> [])\<rparr>
                 in if currentStep r < int (length steps) - 1
                    then Some (s1\<lparr>currentStep := currentStep r + 1\<rparr>)
                    else Some (handleSubmit s1))))"

definition handleBack_of :: "Register \<Rightarrow> Register \<Rightarrow> Register" where
  "handleBack_of r s =
     (if currentStep r > 0 then s\<lparr>currentStep := currentStep r - 1\<rparr> else s)"

definition handleKeyDown_of :: "Register \<Rightarrow> jsstring \<Rightarrow> Register \<Rightarrow> Register option" where
  "handleKeyDown_of r key s = (if key = lit ''Enter'' then handleNext_of r s else Some s)"

fun handle_of :: "Register \<Rightarrow> event \<Rightarrow> Register \<Rightarrow> Register option" where
  "handle_of r (Change v) s = onChange_of r v s"
| "handle_of r Next s = handleNext_of r s"
| "handle_of r Back s = Some (handleBack_of r s)"
| "handle_of r (KeyDown k) s = handleKeyDown_of r k s"

text \<open>
  Which render's handlers are in the page. The input and the buttons are inside
  \<open><AnimatePresence mode="wait">\<close> under \<open>key={currentStep}\<close>. While the key stays
  the same, each event re-renders the element in place and the handlers are those of the
  latest state. When an event changes the key, the element of the step just left stays in
  the page, with the handlers of the render before the change, until its exit has ended;
  only then the element of the new step is mounted, with the handlers of the latest state.
  \<open>mounted s r\<close>: the state is \<open>s\<close> and the handlers in the page are those of the
  render \<open>r\<close>. A state is reachable when it is the state of such a pair.
\<close>

inductive mounted :: "Register \<Rightarrow> Register \<Rightarrow> bool" where
  mounted_initial: "mounted initial initial"
| mounted_event: "mounted s r \<Longrightarrow> handle_of r e s = Some s' \<Longrightarrow>
     mounted s' (if r = s \<and> currentStep s' = currentStep s then s' else r)"
| mounted_entered: "mounted s r \<Longrightarrow> mounted s s"

inductive reachable :: "Register \<Rightarrow> bool" where
  reachable_mounted: "mounted st r \<Longrightarrow> reachable st"

section \<open>The progress indicator (ProgressSteps)\<close>

text \<open>
  The component has no hooks: it maps its two props to one \<open>div\<close> per index of
  \<open>Array.from({ length: totalSteps })\<close>, and the class of the \<open>div\<close> alone depends on
  the props. A length below zero gives the empty array. The prop
  \<open>currentStep\<close> is called \<open>current\<close> here, the wizard's state having the other name.
\<close>

definition segmentClass :: "int \<Rightarrow> int \<Rightarrow> jsstring" where
  "segmentClass current index =
     lit ''h-1 flex-1 rounded-full transition-all duration-500 '' @
     (if index < current then lit ''bg-primary''
      else if index = current then lit ''bg-primary/60''
      else lit ''bg-muted'')"

definition ProgressSteps :: "int \<Rightarrow> int \<Rightarrow> jsstring list" where
  "ProgressSteps current totalSteps =
     map (\<lambda>index. segmentClass current (int index)) [0..<nat totalSteps]"

text \<open>
  The three segment states of the specification, and the class each is drawn with: the full
  colour for a completed segment, the 60% colour for the active one, the muted colour for a
  pending one.
\<close>

datatype segment = Completed | Active | Pending

fun drawn :: "segment \<Rightarrow> jsstring" where
  "drawn Completed = lit ''h-1 flex-1 rounded-full transition-all duration-500 bg-primary''"
| "drawn Active = lit ''h-1 flex-1 rounded-full transition-all duration-500 bg-primary/60''"
| "drawn Pending = lit ''h-1 flex-1 rounded-full transition-all duration-500 bg-muted''"

definition segmentState :: "int \<Rightarrow> int \<Rightarrow> segment" where
  "segmentState current i =
     (if i < current then Completed else if i = current then Active else Pending)"

section \<open>The sign-in form (Login)\<close>

text \<open>
  \<open>formData\<close> and \<open>errors\<close> of the sign-in form are both objects with the keys
  \<open>email\<close> and \<open>password\<close>. The names of this component carry the prefix \<open>Login_\<close>,
  since the wizard uses the same ones.
\<close>

record Login_fields =
  Login_email :: jsstring
  Login_password :: jsstring

record Login =
  Login_formData :: Login_fields
  Login_errors :: Login_fields
  Login_effects :: "effect list"

definition Login_initial :: Login where
  "Login_initial =
     \<lparr>Login_formData = \<lparr>Login_email = [], Login_password = []\<rparr>,
      Login_errors = \<lparr>Login_email = [], Login_password = []\<rparr>,
      Login_effects = []\<rparr>"

text \<open>\<open>validateForm\<close> builds \<open>newErrors\<close>, stores it and returns whether both are empty.\<close>

definition Login_newErrors :: "Login_fields \<Rightarrow> Login_fields" where
  "Login_newErrors d =
     \<lparr>Login_email =
        (if Login_email d = [] then lit ''Email is required''
         else if \<not> regex_test emailRegex (Login_email d) then lit ''Please enter a valid email''
         else []),
      Login_password =
        (if Login_password d = [] then lit ''Password is required''
         else if length (Login_password d) < 8 then lit ''Password must be at least 8 characters''
         else [])\<rparr>"

definition Login_validateForm :: "Login \<Rightarrow> bool \<times> Login" where
  "Login_validateForm st =
     (let newErrors = Login_newErrors (Login_formData st)
      in (Login_email newErrors = [] \<and> Login_password newErrors = [],
          st\<lparr>Login_errors := newErrors\<rparr>))"

definition Login_handleSubmit :: "Login \<Rightarrow> Login" where
  "Login_handleSubmit st =
     (case Login_validateForm st of
        (ok, st1) \<Rightarrow>
          if \<not> ok then st1
          else st1\<lparr>Login_effects := Login_effects st1 @
                 [Toast (lit ''Welcome back!'')
                    (lit ''You've successfully signed in to Meridian AI.''),
                  Navigate (lit ''/'')]\<rparr>)"

text \<open>The \<open>onChange\<close> handlers of the two inputs.\<close>

definition Login_onChangeEmail :: "jsstring \<Rightarrow> Login \<Rightarrow> Login" where
  "Login_onChangeEmail v st =
     st\<lparr>Login_formData := (Login_formData st)\<lparr>Login_email := v\<rparr>,
        Login_errors := (Login_errors st)\<lparr>Login_email := []\<rparr>\<rparr>"

definition Login_onChangePassword :: "jsstring \<Rightarrow> Login \<Rightarrow> Login" where
  "Login_onChangePassword v st =
     st\<lparr>Login_formData := (Login_formData st)\<lparr>Login_password := v\<rparr>,
        Login_errors := (Login_errors st)\<lparr>Login_password := []\<rparr>\<rparr>"

section \<open>The matcher computes the pattern's language\<close>

lemma regex_lang_OneOrMore_Cons:
  "c # s \<in> regex_lang ((p, OneOrMore) # r) \<longleftrightarrow>
     p c \<and> (s \<in> regex_lang ((p, OneOrMore) # r) \<or> s \<in> regex_lang r)"
proof
  assume "c # s \<in> regex_lang ((p, OneOrMore) # r)"
  then obtain u t where ut: "c # s = u @ t" "u \<noteq> []" "list_all p u" "t \<in> regex_lang r"
    by auto
  then obtain u' where u: "u = c # u'" "s = u' @ t"
    by (cases u) auto
  show "p c \<and> (s \<in> regex_lang ((p, OneOrMore) # r) \<or> s \<in> regex_lang r)"
  proof (cases "u' = []")
    case True
    with u ut show ?thesis by simp
  next
    case False
    with u ut have "s \<in> regex_lang ((p, OneOrMore) # r)" by auto
    with u ut show ?thesis by simp
  qed
next
  assume a: "p c \<and> (s \<in> regex_lang ((p, OneOrMore) # r) \<or> s \<in> regex_lang r)"
  then consider "s \<in> regex_lang ((p, OneOrMore) # r)" | "s \<in> regex_lang r" by blast
  then show "c # s \<in> regex_lang ((p, OneOrMore) # r)"
  proof cases
    case 1
    then obtain u t where ut: "s = u @ t" "u \<noteq> []" "list_all p u" "t \<in> regex_lang r"
      by auto
    with a have "c # s = (c # u) @ t \<and> c # u \<noteq> [] \<and> list_all p (c # u) \<and> t \<in> regex_lang r"
      by simp
    then show ?thesis unfolding regex_lang.simps by blast
  next
    case 2
    with a have "c # s = [c] @ s \<and> [c] \<noteq> [] \<and> list_all p [c] \<and> s \<in> regex_lang r"
      by simp
    then show ?thesis unfolding regex_lang.simps by blast
  qed
qed

lemma regex_lang_Nil_notin: "[] \<notin> regex_lang ((p, q) # r)"
  by (cases q) auto

lemma regex_test_lang: "regex_test r s \<longleftrightarrow> s \<in> regex_lang r"
proof (induction r s rule: regex_test.induct)
  case (1 s)
  show ?case by simp
next
  case (2 p q r)
  show ?case using regex_lang_Nil_notin [of p q r] by simp
next
  case (3 p r c s)
  then show ?case by simp
next
  case (4 p r c s)
  then show ?case by (simp only: regex_test.simps regex_lang_OneOrMore_Cons)
qed

lemma in_lang_Once:
  "s \<in> regex_lang ((p, Once) # r) \<longleftrightarrow> (\<exists>c t. s = c # t \<and> p c \<and> t \<in> regex_lang r)"
  by simp

lemma in_lang_OneOrMore:
  "s \<in> regex_lang ((p, OneOrMore) # r) \<longleftrightarrow>
     (\<exists>u t. s = u @ t \<and> u \<noteq> [] \<and> list_all p u \<and> t \<in> regex_lang r)"
  by simp

lemma emailRegex_lang: "s \<in> regex_lang emailRegex \<longleftrightarrow> matches_email_pattern s"
proof
  assume "s \<in> regex_lang emailRegex"
  then obtain l s1 where 1: "s = l @ s1" "l \<noteq> []" "list_all notSpaceAt l"
      "s1 \<in> regex_lang [(isAt, Once), (notSpaceAt, OneOrMore), (isDot, Once), (notSpaceAt, OneOrMore)]"
    unfolding emailRegex_def in_lang_OneOrMore by blast
  from 1(4) obtain c1 s2 where 2: "s1 = c1 # s2" "isAt c1"
      "s2 \<in> regex_lang [(notSpaceAt, OneOrMore), (isDot, Once), (notSpaceAt, OneOrMore)]"
    unfolding in_lang_Once by blast
  from 2(3) obtain d s3 where 3: "s2 = d @ s3" "d \<noteq> []" "list_all notSpaceAt d"
      "s3 \<in> regex_lang [(isDot, Once), (notSpaceAt, OneOrMore)]"
    unfolding in_lang_OneOrMore by blast
  from 3(4) obtain c2 s4 where 4: "s3 = c2 # s4" "isDot c2"
      "s4 \<in> regex_lang [(notSpaceAt, OneOrMore)]"
    unfolding in_lang_Once by blast
  from 4(3) obtain t s5 where 5: "s4 = t @ s5" "t \<noteq> []" "list_all notSpaceAt t"
      "s5 \<in> regex_lang []"
    unfolding in_lang_OneOrMore by blast
  from 5(4) have 6: "s5 = []" by simp
  have "s = l @ [0x40] @ d @ [0x2E] @ t"
    using 1(1) 2(1,2) 3(1) 4(1,2) 5(1) 6 by (simp add: isAt_def isDot_def)
  with 1(2,3) 3(2,3) 5(2,3) show "matches_email_pattern s"
    unfolding matches_email_pattern_def by blast
next
  assume "matches_email_pattern s"
  then obtain l d t where h: "s = l @ [0x40] @ d @ [0x2E] @ t" "l \<noteq> []" "d \<noteq> []" "t \<noteq> []"
     "list_all notSpaceAt l" "list_all notSpaceAt d" "list_all notSpaceAt t"
    unfolding matches_email_pattern_def by blast
  have "t @ [] \<in> regex_lang [(notSpaceAt, OneOrMore)]"
    unfolding in_lang_OneOrMore using h(4,7) by auto
  then have "[0x2E] @ t \<in> regex_lang [(isDot, Once), (notSpaceAt, OneOrMore)]"
    unfolding in_lang_Once by (simp add: isDot_def)
  then have "d @ [0x2E] @ t
      \<in> regex_lang [(notSpaceAt, OneOrMore), (isDot, Once), (notSpaceAt, OneOrMore)]"
    unfolding in_lang_OneOrMore [of _ notSpaceAt] using h(3,6) by blast
  then have "[0x40] @ d @ [0x2E] @ t
      \<in> regex_lang [(isAt, Once), (notSpaceAt, OneOrMore), (isDot, Once), (notSpaceAt, OneOrMore)]"
    unfolding in_lang_Once [of _ isAt] by (simp add: isAt_def)
  then show "s \<in> regex_lang emailRegex"
    unfolding emailRegex_def in_lang_OneOrMore [of _ notSpaceAt "(isAt, Once) # _"]
    using h(1,2,5) by blast
qed

lemma regex_test_emailRegex: "regex_test emailRegex s \<longleftrightarrow> matches_email_pattern s"
  by (simp only: regex_test_lang emailRegex_lang)

section \<open>Facts about the wizard's handlers\<close>

lemma currentField_cases:
  "currentField st = Some f \<longleftrightarrow>
     (currentStep st = 0 \<and> f = Name) \<or> (currentStep st = 1 \<and> f = Email) \<or>
     (currentStep st = 2 \<and> f = Password) \<or> (currentStep st = 3 \<and> f = ConfirmPassword)"
proof -
  have r: "0 \<le> currentStep st \<and> currentStep st < 4 \<longleftrightarrow>
      currentStep st = 0 \<or> currentStep st = 1 \<or> currentStep st = 2 \<or> currentStep st = 3"
    by arith
  show ?thesis
  proof (cases "0 \<le> currentStep st \<and> currentStep st < 4")
    case False
    then show ?thesis by (auto simp: currentField_def steps_def)
  next
    case True
    then consider "currentStep st = 0" | "currentStep st = 1" | "currentStep st = 2"
      | "currentStep st = 3" using r by blast
    then show ?thesis
      by cases (auto simp: currentField_def steps_def)
  qed
qed

lemma truthy_validateField: "truthy (validateField d f v) \<longleftrightarrow> validateField d f v \<noteq> None"
  by (cases f) (simp_all add: truthy_def lit_def)

lemma handleNext_fail:
  assumes "currentField st = Some f"
    and "validateField (formData st) f (getField (formData st) f) = Some msg"
  shows "handleNext st = Some (st\<lparr>errors := (errors st)(f \<mapsto> msg)\<rparr>)"
  using assms truthy_validateField [of "formData st" f "getField (formData st) f"]
  by (simp add: handleNext_def Let_def)

lemma handleNext_ok_lt:
  assumes "currentField st = Some f"
    and "validateField (formData st) f (getField (formData st) f) = None"
    and "currentStep st < 3"
  shows "handleNext st = Some (st\<lparr>errors := (errors st)(f \<mapsto> []), currentStep := currentStep st + 1\<rparr>)"
  using assms truthy_validateField [of "formData st" f "getField (formData st) f"]
  by (simp add: handleNext_def Let_def steps_def)



lemma currentField_simps:
  "currentStep st = 0 \<Longrightarrow> currentField st = Some Name"
  "currentStep st = 1 \<Longrightarrow> currentField st = Some Email"
  "currentStep st = 2 \<Longrightarrow> currentField st = Some Password"
  "currentStep st = 3 \<Longrightarrow> currentField st = Some ConfirmPassword"
  by (simp_all add: currentField_cases)


section \<open>Email validation\<close>

lemma not_matches_Nil: "\<not> regex_test emailRegex []"
  by (simp add: emailRegex_def)

lemma Login_email_error_empty:
  "Login_email (Login_newErrors d) = [] \<longleftrightarrow> regex_test emailRegex (Login_email d)"
  using not_matches_Nil by (auto simp: Login_newErrors_def lit_def)

lemmas email_eval = emailRegex_def lit_def notSpaceAt_def isWhiteSpace_def isAt_def isDot_def

text \<open>
  C2. In both forms the email check accepts a string exactly when the string matches the
  pattern \<open>^[^\s@]+@[^\s@]+\.[^\s@]+$\<close>: the wizard's validator returns no message, and
  the sign-in form stores the empty message, if and only if the string has that shape. Both
  accept \<open>a@b.co\<close> and reject \<open>a@b\<close>, \<open>@b.co\<close> and \<open>a b@c.com\<close>.
\<close>

theorem email_validation_iff_pattern:
  "(validateField d Email s = None \<longleftrightarrow> matches_email_pattern s) \<and>
   (Login_email (Login_errors (snd (Login_validateForm st))) = [] \<longleftrightarrow>
      matches_email_pattern (Login_email (Login_formData st))) \<and>
   validateField d Email (lit ''a@b.co'') = None \<and>
   validateField d Email (lit ''a@b'') = Some (lit ''Please enter a valid email'') \<and>
   validateField d Email (lit ''@b.co'') = Some (lit ''Please enter a valid email'') \<and>
   validateField d Email (lit ''a b@c.com'') = Some (lit ''Please enter a valid email'') \<and>
   Login_email (Login_newErrors \<lparr>Login_email = lit ''a@b.co'', Login_password = p\<rparr>) = [] \<and>
   Login_email (Login_newErrors \<lparr>Login_email = lit ''a@b'', Login_password = p\<rparr>)
     = lit ''Please enter a valid email'' \<and>
   Login_email (Login_newErrors \<lparr>Login_email = lit ''@b.co'', Login_password = p\<rparr>)
     = lit ''Please enter a valid email'' \<and>
   Login_email (Login_newErrors \<lparr>Login_email = lit ''a b@c.com'', Login_password = p\<rparr>)
     = lit ''Please enter a valid email''"
proof -
  have 1: "validateField d Email s = None \<longleftrightarrow> matches_email_pattern s"
    by (simp add: regex_test_emailRegex)
  have 2: "Login_email (Login_errors (snd (Login_validateForm st))) = [] \<longleftrightarrow>
      matches_email_pattern (Login_email (Login_formData st))"
    by (simp add: Login_validateForm_def Let_def Login_email_error_empty regex_test_emailRegex)
  have a: "regex_test emailRegex (lit ''a@b.co'')" by (simp add: email_eval)
  have b: "\<not> regex_test emailRegex (lit ''a@b'')" by (simp add: email_eval)
  have c: "\<not> regex_test emailRegex (lit ''@b.co'')" by (simp add: email_eval)
  have e: "\<not> regex_test emailRegex (lit ''a b@c.com'')" by (simp add: email_eval)
  have n: "lit ''a@b.co'' \<noteq> []" "lit ''a@b'' \<noteq> []" "lit ''@b.co'' \<noteq> []" "lit ''a b@c.com'' \<noteq> []"
    by (simp_all add: lit_def)
  show ?thesis
    using 1 2 a b c e n by (simp add: Login_newErrors_def)
qed

text \<open>The equivalence at an accepted and at a rejected address.\<close>

theorem email_validation_iff_pattern_witness:
  "validateField (formData initial) Email (lit ''user@test.com'') = None \<and>
   matches_email_pattern (lit ''user@test.com'') \<and>
   validateField (formData initial) Email (lit ''user.test.com'') \<noteq> None \<and>
   \<not> matches_email_pattern (lit ''user.test.com'')"
proof -
  have a: "regex_test emailRegex (lit ''user@test.com'')" by (simp add: email_eval)
  have b: "\<not> regex_test emailRegex (lit ''user.test.com'')" by (simp add: email_eval)
  show ?thesis
    using a b email_validation_iff_pattern [of "formData initial" "lit ''user@test.com''"]
      email_validation_iff_pattern [of "formData initial" "lit ''user.test.com''"]
    by simp
qed

section \<open>Advancing the wizard\<close>

lemma trim_Ada: "length (trim (lit ''Ada Byron'')) = 9"
  by (simp add: trim_def lit_def isWhiteSpace_def)




section \<open>Failed validation\<close>

lemma validateField_nonempty: "validateField d f v = Some msg \<Longrightarrow> msg \<noteq> []"
  by (cases f) (auto simp: lit_def split: if_splits)

lemma currentField_errors_update: "currentField (st\<lparr>errors := e\<rparr>) = currentField st"
  by (simp add: currentField_def)

lemma trim_A: "trim (lit ''A'') = lit ''A''"
  by (simp add: trim_def lit_def isWhiteSpace_def)

text \<open>
  C3. When the validator of the active step's field returns a message, \<open>handleNext\<close>
  stores that message as the field's error (it is the one shown) and leaves the step index,
  the field values and the effects as they were. Advancing from the initial state after
  typing the name \<open>A\<close>, whose trimmed length is 1, gives the error
  \<open>Name must be at least 2 characters\<close> at step 0. The name validator fails exactly
  when the trimmed length is below 2, the password validator exactly when the length is
  below 8.
\<close>

theorem advance_on_failure:
  "(currentField st = Some f \<and>
    validateField (formData st) f (getField (formData st) f) = Some msg \<longrightarrow>
      (\<exists>st'. handleNext st = Some st' \<and>
         errors st' = (errors st)(f \<mapsto> msg) \<and> shownError st' = Some msg \<and>
         currentStep st' = currentStep st \<and> formData st' = formData st \<and>
         effects st' = effects st)) \<and>
   length (trim (lit ''A'')) = 1 \<and>
   run initial [Change (lit ''A''), Next] =
     Some \<lparr>currentStep = 0,
       formData = \<lparr>name = lit ''A'', email = [], password = [], confirmPassword = []\<rparr>,
       errors = [Name \<mapsto> lit ''Name must be at least 2 characters''],
       effects = []\<rparr> \<and>
   (validateField d Name v \<noteq> None \<longleftrightarrow> length (trim v) < 2) \<and>
   (validateField d Password v \<noteq> None \<longleftrightarrow> length v < 8)"
proof -
  have general: "\<exists>st'. handleNext st = Some st' \<and>
         errors st' = (errors st)(f \<mapsto> msg) \<and> shownError st' = Some msg \<and>
         currentStep st' = currentStep st \<and> formData st' = formData st \<and>
         effects st' = effects st"
    if cf: "currentField st = Some f"
      and bad: "validateField (formData st) f (getField (formData st) f) = Some msg"
  proof -
    have "currentField (st\<lparr>errors := (errors st)(f \<mapsto> msg)\<rparr>) = Some f"
      using cf by (simp add: currentField_errors_update)
    then have "shownError (st\<lparr>errors := (errors st)(f \<mapsto> msg)\<rparr>) = Some msg"
      using validateField_nonempty [OF bad] by (simp add: shownError_def truthy_def)
    then show ?thesis
      using handleNext_fail [OF cf bad] by simp
  qed
  have len: "length (trim (lit ''A'')) = 1"
    by (simp add: trim_A) (simp add: lit_def)
  let ?s1 = "initial\<lparr>formData := (formData initial)\<lparr>name := lit ''A''\<rparr>, errors := [Name \<mapsto> []]\<rparr>"
  have h1: "handle (Change (lit ''A'')) initial = Some ?s1"
    by (simp add: onChange_def currentField_simps initial_def)
  have "handleNext ?s1 = Some (?s1\<lparr>errors := (errors ?s1)(Name \<mapsto> lit ''Name must be at least 2 characters'')\<rparr>)"
    by (rule handleNext_fail) (simp_all add: currentField_simps initial_def len)
  then have h2: "handle Next ?s1 = Some \<lparr>currentStep = 0,
       formData = \<lparr>name = lit ''A'', email = [], password = [], confirmPassword = []\<rparr>,
       errors = [Name \<mapsto> lit ''Name must be at least 2 characters''],
       effects = []\<rparr>"
    by (simp add: initial_def)
  have example: "run initial [Change (lit ''A''), Next] =
     Some \<lparr>currentStep = 0,
       formData = \<lparr>name = lit ''A'', email = [], password = [], confirmPassword = []\<rparr>,
       errors = [Name \<mapsto> lit ''Name must be at least 2 characters''],
       effects = []\<rparr>"
    unfolding run.simps h1 option.case h2 ..
  have v: "(validateField d Name v \<noteq> None \<longleftrightarrow> length (trim v) < 2) \<and>
   (validateField d Password v \<noteq> None \<longleftrightarrow> length v < 8)"
    by simp
  from general len example v show ?thesis by blast
qed

text \<open>The theorem at step 2 with the seven-character password \<open>abcdefg\<close>.\<close>

theorem advance_on_failure_witness:
  "\<exists>st'. handleNext (initial\<lparr>currentStep := 2,
       formData := (formData initial)\<lparr>password := lit ''abcdefg''\<rparr>\<rparr>) = Some st' \<and>
     errors st' = [Password \<mapsto> lit ''Password must be at least 8 characters''] \<and>
     shownError st' = Some (lit ''Password must be at least 8 characters'') \<and>
     currentStep st' = 2 \<and> effects st' = []"
proof -
  let ?a = "initial\<lparr>currentStep := 2, formData := (formData initial)\<lparr>password := lit ''abcdefg''\<rparr>\<rparr>"
  have l: "length (lit ''abcdefg'') = 7" by (simp add: lit_def)
  have a: "currentField ?a = Some Password"
    "validateField (formData ?a) Password (getField (formData ?a) Password)
       = Some (lit ''Password must be at least 8 characters'')"
    "currentStep ?a = 2" "errors ?a = Map.empty" "effects ?a = []"
    using l by (simp_all add: currentField_simps initial_def)
  from advance_on_failure [of ?a Password "lit ''Password must be at least 8 characters''"] a
  show ?thesis by auto
qed

text \<open>
  C4. For every value and every password field, the confirm-password validator fails
  exactly when the value differs from the password held in the form data at that moment,
  and its message is then \<open>Passwords do not match\<close>; advancing at step 3 with a
  differing confirmation stores and shows that message, stays at step 3 and emits nothing.
\<close>

theorem confirmPassword_validation:
  "(validateField d ConfirmPassword v \<noteq> None \<longleftrightarrow> v \<noteq> password d) \<and>
   (v \<noteq> password d \<longrightarrow>
      validateField d ConfirmPassword v = Some (lit ''Passwords do not match'')) \<and>
   (currentStep st = 3 \<and> confirmPassword (formData st) \<noteq> password (formData st) \<longrightarrow>
      (\<exists>st'. handleNext st = Some st' \<and>
         errors st' = (errors st)(ConfirmPassword \<mapsto> lit ''Passwords do not match'') \<and>
         shownError st' = Some (lit ''Passwords do not match'') \<and>
         currentStep st' = 3 \<and> formData st' = formData st \<and> effects st' = effects st))"
proof -
  have step: "\<exists>st'. handleNext st = Some st' \<and>
         errors st' = (errors st)(ConfirmPassword \<mapsto> lit ''Passwords do not match'') \<and>
         shownError st' = Some (lit ''Passwords do not match'') \<and>
         currentStep st' = 3 \<and> formData st' = formData st \<and> effects st' = effects st"
    if 3: "currentStep st = 3" and ne: "confirmPassword (formData st) \<noteq> password (formData st)"
  proof -
    have cf: "currentField st = Some ConfirmPassword"
      using 3 by (simp add: currentField_simps)
    have bad: "validateField (formData st) ConfirmPassword (getField (formData st) ConfirmPassword)
        = Some (lit ''Passwords do not match'')"
      using ne by simp
    have "currentField (st\<lparr>errors := (errors st)(ConfirmPassword \<mapsto> lit ''Passwords do not match'')\<rparr>)
        = Some ConfirmPassword"
      using cf by (simp add: currentField_errors_update)
    then have "shownError (st\<lparr>errors := (errors st)(ConfirmPassword \<mapsto> lit ''Passwords do not match'')\<rparr>)
        = Some (lit ''Passwords do not match'')"
      using validateField_nonempty [OF bad] by (simp add: shownError_def truthy_def)
    then show ?thesis
      using handleNext_fail [OF cf bad] 3 by simp
  qed
  have v: "(validateField d ConfirmPassword v \<noteq> None \<longleftrightarrow> v \<noteq> password d) \<and>
   (v \<noteq> password d \<longrightarrow>
      validateField d ConfirmPassword v = Some (lit ''Passwords do not match''))"
    by simp
  from step v show ?thesis by blast
qed

text \<open>The theorem for the password \<open>abcdefgh\<close> and the confirmation \<open>abcdefgx\<close>.\<close>

theorem confirmPassword_validation_witness:
  "validateField \<lparr>name = [], email = [], password = lit ''abcdefgh'', confirmPassword = []\<rparr>
      ConfirmPassword (lit ''abcdefgx'') = Some (lit ''Passwords do not match'') \<and>
   (\<exists>st'. handleNext (initial\<lparr>currentStep := 3,
       formData := (formData initial)\<lparr>password := lit ''abcdefgh'',
         confirmPassword := lit ''abcdefgx''\<rparr>\<rparr>) = Some st' \<and>
     errors st' = [ConfirmPassword \<mapsto> lit ''Passwords do not match''] \<and>
     currentStep st' = 3 \<and> effects st' = [])"
proof -
  let ?d = "\<lparr>name = [], email = [], password = lit ''abcdefgh'', confirmPassword = []\<rparr>"
  let ?a = "initial\<lparr>currentStep := 3,
       formData := (formData initial)\<lparr>password := lit ''abcdefgh'',
         confirmPassword := lit ''abcdefgx''\<rparr>\<rparr>"
  have ne: "lit ''abcdefgx'' \<noteq> lit ''abcdefgh''" by (simp add: lit_def)
  have a: "currentStep ?a = 3" "confirmPassword (formData ?a) \<noteq> password (formData ?a)"
    "errors ?a = Map.empty" "effects ?a = []"
    using ne by (simp_all add: initial_def)
  have d: "lit ''abcdefgx'' \<noteq> password ?d" using ne by simp
  from confirmPassword_validation [of ?d "lit ''abcdefgx''" ?a] a d
  show ?thesis by auto
qed

section \<open>Going back\<close>



section \<open>Submitting the sign-in form\<close>

lemma Login_handleSubmit_invalid:
  "\<not> (Login_email (Login_newErrors (Login_formData st)) = [] \<and>
       Login_password (Login_newErrors (Login_formData st)) = []) \<Longrightarrow>
   Login_handleSubmit st = st\<lparr>Login_errors := Login_newErrors (Login_formData st)\<rparr>"
  by (simp add: Login_handleSubmit_def Login_validateForm_def Let_def)

lemma Login_handleSubmit_valid:
  "Login_email (Login_newErrors (Login_formData st)) = [] \<Longrightarrow>
   Login_password (Login_newErrors (Login_formData st)) = [] \<Longrightarrow>
   Login_handleSubmit st =
     st\<lparr>Login_errors := Login_newErrors (Login_formData st),
        Login_effects := Login_effects st @
          [Toast (lit ''Welcome back!'') (lit ''You've successfully signed in to Meridian AI.''),
           Navigate (lit ''/'')]\<rparr>"
  by (simp add: Login_handleSubmit_def Login_validateForm_def Let_def)

lemma regex_test_user: "regex_test emailRegex (lit ''user@test.com'')"
  by (simp add: email_eval)

text \<open>
  C6. Submitting the sign-in form while email and password are both empty stores exactly
  the two messages \<open>Email is required\<close> and \<open>Password is required\<close>, and emits
  neither a notification nor a navigation.
\<close>

theorem signin_empty_submit:
  "Login_email (Login_formData st) = [] \<and> Login_password (Login_formData st) = [] \<longrightarrow>
     Login_errors (Login_handleSubmit st) =
       \<lparr>Login_email = lit ''Email is required'', Login_password = lit ''Password is required''\<rparr> \<and>
     Login_effects (Login_handleSubmit st) = Login_effects st \<and>
     Login_formData (Login_handleSubmit st) = Login_formData st"
proof
  assume e: "Login_email (Login_formData st) = [] \<and> Login_password (Login_formData st) = []"
  then have n: "Login_newErrors (Login_formData st) =
      \<lparr>Login_email = lit ''Email is required'', Login_password = lit ''Password is required''\<rparr>"
    by (simp add: Login_newErrors_def)
  have "Login_email (Login_newErrors (Login_formData st)) \<noteq> []"
    unfolding n by (simp add: lit_def)
  then show "Login_errors (Login_handleSubmit st) =
       \<lparr>Login_email = lit ''Email is required'', Login_password = lit ''Password is required''\<rparr> \<and>
     Login_effects (Login_handleSubmit st) = Login_effects st \<and>
     Login_formData (Login_handleSubmit st) = Login_formData st"
    using n by (simp add: Login_handleSubmit_invalid)
qed

text \<open>The theorem on the freshly mounted form.\<close>

theorem signin_empty_submit_witness:
  "Login_handleSubmit Login_initial =
     Login_initial\<lparr>Login_errors :=
       \<lparr>Login_email = lit ''Email is required'', Login_password = lit ''Password is required''\<rparr>\<rparr>"
proof -
  have 1: "Login_handleSubmit Login_initial =
      \<lparr>Login_formData = Login_formData (Login_handleSubmit Login_initial),
       Login_errors = Login_errors (Login_handleSubmit Login_initial),
       Login_effects = Login_effects (Login_handleSubmit Login_initial)\<rparr>"
    by simp
  have 2: "Login_email (Login_formData Login_initial) = []"
    "Login_password (Login_formData Login_initial) = []"
    by (simp_all add: Login_initial_def)
  from signin_empty_submit [of Login_initial] 2
  have 3: "Login_errors (Login_handleSubmit Login_initial) =
       \<lparr>Login_email = lit ''Email is required'', Login_password = lit ''Password is required''\<rparr>"
    "Login_effects (Login_handleSubmit Login_initial) = Login_effects Login_initial"
    "Login_formData (Login_handleSubmit Login_initial) = Login_formData Login_initial"
    by simp_all
  show ?thesis
    by (subst 1) (simp only: 3, simp add: Login_initial_def)
qed

text \<open>
  C7. With the email \<open>user@test.com\<close>: a password of seven code units gives the
  password-length message alone, the email error staying empty, and nothing is emitted; any
  password of at least eight code units gives two empty errors and exactly one notification
  followed by one navigation to \<open>/\<close>.
\<close>

theorem signin_password_length:
  "(Login_email (Login_formData st) = lit ''user@test.com'' \<and>
    length (Login_password (Login_formData st)) = 7 \<longrightarrow>
      Login_errors (Login_handleSubmit st) =
        \<lparr>Login_email = [], Login_password = lit ''Password must be at least 8 characters''\<rparr> \<and>
      Login_effects (Login_handleSubmit st) = Login_effects st) \<and>
   (Login_email (Login_formData st) = lit ''user@test.com'' \<and>
    8 \<le> length (Login_password (Login_formData st)) \<longrightarrow>
      Login_errors (Login_handleSubmit st) = \<lparr>Login_email = [], Login_password = []\<rparr> \<and>
      Login_effects (Login_handleSubmit st) = Login_effects st @
        [Toast (lit ''Welcome back!'') (lit ''You've successfully signed in to Meridian AI.''),
         Navigate (lit ''/'')])"
proof -
  have u: "lit ''user@test.com'' \<noteq> []" by (simp add: lit_def)
  have short: "Login_errors (Login_handleSubmit st) =
        \<lparr>Login_email = [], Login_password = lit ''Password must be at least 8 characters''\<rparr> \<and>
      Login_effects (Login_handleSubmit st) = Login_effects st"
    if e: "Login_email (Login_formData st) = lit ''user@test.com''"
      and p: "length (Login_password (Login_formData st)) = 7"
  proof -
    from p have pn: "Login_password (Login_formData st) \<noteq> []" by auto
    have n: "Login_newErrors (Login_formData st) =
        \<lparr>Login_email = [], Login_password = lit ''Password must be at least 8 characters''\<rparr>"
      using e p pn u regex_test_user by (simp add: Login_newErrors_def)
    have "Login_password (Login_newErrors (Login_formData st)) \<noteq> []"
      unfolding n by (simp add: lit_def)
    then show ?thesis
      using n by (simp add: Login_handleSubmit_invalid)
  qed
  have long: "Login_errors (Login_handleSubmit st) = \<lparr>Login_email = [], Login_password = []\<rparr> \<and>
      Login_effects (Login_handleSubmit st) = Login_effects st @
        [Toast (lit ''Welcome back!'') (lit ''You've successfully signed in to Meridian AI.''),
         Navigate (lit ''/'')]"
    if e: "Login_email (Login_formData st) = lit ''user@test.com''"
      and p: "8 \<le> length (Login_password (Login_formData st))"
  proof -
    from p have pn: "Login_password (Login_formData st) \<noteq> []" by auto
    have n: "Login_newErrors (Login_formData st) = \<lparr>Login_email = [], Login_password = []\<rparr>"
      using e p pn u regex_test_user by (simp add: Login_newErrors_def)
    then show ?thesis
      by (simp add: Login_handleSubmit_valid)
  qed
  from short long show ?thesis by blast
qed

text \<open>
  The theorem after typing the email and the password \<open>1234567\<close>, respectively
  \<open>12345678\<close>, into the fresh form.
\<close>

theorem signin_password_length_witness:
  "Login_errors (Login_handleSubmit
      (Login_onChangePassword (lit ''1234567'') (Login_onChangeEmail (lit ''user@test.com'') Login_initial)))
     = \<lparr>Login_email = [], Login_password = lit ''Password must be at least 8 characters''\<rparr> \<and>
   Login_effects (Login_handleSubmit
      (Login_onChangePassword (lit ''1234567'') (Login_onChangeEmail (lit ''user@test.com'') Login_initial)))
     = [] \<and>
   Login_effects (Login_handleSubmit
      (Login_onChangePassword (lit ''12345678'') (Login_onChangeEmail (lit ''user@test.com'') Login_initial)))
     = [Toast (lit ''Welcome back!'') (lit ''You've successfully signed in to Meridian AI.''),
        Navigate (lit ''/'')]"
proof -
  let ?a = "Login_onChangePassword (lit ''1234567'') (Login_onChangeEmail (lit ''user@test.com'') Login_initial)"
  let ?b = "Login_onChangePassword (lit ''12345678'') (Login_onChangeEmail (lit ''user@test.com'') Login_initial)"
  have l: "length (lit ''1234567'') = 7" "length (lit ''12345678'') = 8"
    by (simp_all add: lit_def)
  have a: "Login_email (Login_formData ?a) = lit ''user@test.com''"
    "length (Login_password (Login_formData ?a)) = 7" "Login_effects ?a = []"
    using l by (simp_all add: Login_onChangePassword_def Login_onChangeEmail_def Login_initial_def)
  have b: "Login_email (Login_formData ?b) = lit ''user@test.com''"
    "8 \<le> length (Login_password (Login_formData ?b))" "Login_effects ?b = []"
    using l by (simp_all add: Login_onChangePassword_def Login_onChangeEmail_def Login_initial_def)
  from signin_password_length [of ?a] a signin_password_length [of ?b] b
  show ?thesis by simp
qed

section \<open>The progress indicator\<close>

lemma segmentClass_drawn: "segmentClass current i = drawn (segmentState current i)"
  by (simp add: segmentClass_def segmentState_def lit_def)

lemma drawn_inj: "drawn a = drawn b \<longleftrightarrow> a = b"
  by (cases a; cases b) (simp_all add: lit_def)

text \<open>
  C8. \<open>ProgressSteps\<close> is a function of its two props alone. For a segment count
  \<open>totalSteps\<close> (a number that is not negative) it yields exactly \<open>totalSteps\<close>
  segments, and the segment at index \<open>i\<close> is drawn as completed when \<open>i\<close> is below
  the current step, as active when it equals it, and as pending otherwise. For four steps
  and current step 2 the segments are completed, completed, active, pending. The three ways
  of drawing differ from one another.
\<close>

theorem progress_segments:
  "0 \<le> totalSteps \<longrightarrow>
     int (length (ProgressSteps current totalSteps)) = totalSteps \<and>
     (\<forall>i. 0 \<le> i \<and> i < totalSteps \<longrightarrow>
        ProgressSteps current totalSteps ! nat i =
          drawn (if i < current then Completed else if i = current then Active else Pending)) \<and>
     ProgressSteps 2 4 = [drawn Completed, drawn Completed, drawn Active, drawn Pending] \<and>
     distinct [drawn Completed, drawn Active, drawn Pending]"
proof
  assume t: "0 \<le> totalSteps"
  have len: "int (length (ProgressSteps current totalSteps)) = totalSteps"
    using t by (simp add: ProgressSteps_def)
  have nth: "ProgressSteps current totalSteps ! nat i =
          drawn (if i < current then Completed else if i = current then Active else Pending)"
    if "0 \<le> i \<and> i < totalSteps" for i
  proof -
    from that have "nat i < nat totalSteps" by simp
    then have "ProgressSteps current totalSteps ! nat i = segmentClass current (int (nat i))"
      by (simp add: ProgressSteps_def)
    with that show ?thesis
      by (simp add: segmentClass_drawn segmentState_def)
  qed
  have "[0..<nat 4] = [0, 1, 2, 3]"
    by (simp add: upt_rec)
  then have ex: "ProgressSteps 2 4 = [drawn Completed, drawn Completed, drawn Active, drawn Pending]"
    by (simp add: ProgressSteps_def segmentClass_drawn segmentState_def)
  have d: "distinct [drawn Completed, drawn Active, drawn Pending]"
    by (simp add: drawn_inj del: drawn.simps)
  from len nth ex d show "int (length (ProgressSteps current totalSteps)) = totalSteps \<and>
     (\<forall>i. 0 \<le> i \<and> i < totalSteps \<longrightarrow>
        ProgressSteps current totalSteps ! nat i =
          drawn (if i < current then Completed else if i = current then Active else Pending)) \<and>
     ProgressSteps 2 4 = [drawn Completed, drawn Completed, drawn Active, drawn Pending] \<and>
     distinct [drawn Completed, drawn Active, drawn Pending]"
    by blast
qed

text \<open>The theorem for three segments with the current step 1.\<close>

theorem progress_segments_witness:
  "length (ProgressSteps 1 3) = 3 \<and> ProgressSteps 1 3 ! 0 = drawn Completed \<and>
   ProgressSteps 1 3 ! 1 = drawn Active \<and> ProgressSteps 1 3 ! 2 = drawn Pending"
proof -
  have t: "(0::int) \<le> 3" by simp
  from progress_segments [of 3 1] t
  have a: "int (length (ProgressSteps 1 3)) = 3"
    and b: "\<forall>i. 0 \<le> i \<and> i < 3 \<longrightarrow>
        ProgressSteps 1 3 ! nat i =
          drawn (if i < 1 then Completed else if i = 1 then Active else Pending)"
    by blast+
  from b [rule_format, of 0] b [rule_format, of 1] b [rule_format, of 2] a
  show ?thesis by simp
qed

section \<open>Reachable states of the wizard\<close>

lemma handle_of_self: "handle_of st e st = handle e st"
  by (cases e)
    (simp_all add: onChange_of_def onChange_def handleNext_of_def handleNext_def
      handleBack_of_def handleBack_def handleKeyDown_of_def handleKeyDown_def)

lemma handleNext_of_step:
  assumes "handleNext_of r s = Some s'"
  shows "currentStep s' = currentStep s \<or>
     (currentStep r < 3 \<and> currentStep s' = currentStep r + 1)"
  using assms
  by (auto simp: handleNext_of_def Let_def steps_def handleSubmit_def
      split: option.splits if_splits)

lemma handle_of_step:
  assumes "handle_of r e s = Some s'"
  shows "currentStep s' = currentStep s \<or>
     (currentStep r < 3 \<and> currentStep s' = currentStep r + 1) \<or>
     (currentStep r > 0 \<and> currentStep s' = currentStep r - 1)"
proof (cases e)
  case (Change v)
  with assms show ?thesis
    by (auto simp: onChange_of_def split: option.splits)
next
  case Next
  with assms show ?thesis
    using handleNext_of_step [of r s s'] by auto
next
  case Back
  with assms show ?thesis
    by (auto simp: handleBack_of_def split: if_splits)
next
  case (KeyDown k)
  with assms show ?thesis
    using handleNext_of_step [of r s s']
    by (auto simp: handleKeyDown_of_def split: if_splits)
qed

lemma mounted_range:
  "mounted s r \<Longrightarrow>
     (0 \<le> currentStep s \<and> currentStep s < 4) \<and> (0 \<le> currentStep r \<and> currentStep r < 4)"
proof (induction rule: mounted.induct)
  case mounted_initial
  show ?case by (simp add: initial_def)
next
  case (mounted_event s r e s')
  from handle_of_step [OF mounted_event(2)] mounted_event(3)
  have "0 \<le> currentStep s' \<and> currentStep s' < 4" by arith
  with mounted_event(3) show ?case by simp
next
  case (mounted_entered s r)
  then show ?case by simp
qed

lemma mounted_handle:
  assumes "mounted st st" and "handle e st = Some st'"
  shows "mounted st' st'"
proof -
  from assms(2) have "handle_of st e st = Some st'"
    by (simp add: handle_of_self)
  with assms(1)
  have "mounted st' (if st = st \<and> currentStep st' = currentStep st then st' else st)"
    by (rule mounted_event)
  then show ?thesis by (rule mounted_entered)
qed

lemma mounted_run: "mounted st st \<Longrightarrow> run st es = Some st' \<Longrightarrow> mounted st' st'"
proof (induction es arbitrary: st)
  case Nil
  then show ?case by simp
next
  case (Cons e es)
  then show ?case
    by (auto split: option.splits dest: mounted_handle)
qed

lemma reachable_run: "run initial es = Some st \<Longrightarrow> reachable st"
  using mounted_run [OF mounted_initial] reachable_mounted by blast

text \<open>
  C9. Every state reachable from the initial state by field edits, advances, retreats (and
  key presses) has \<open>0 \<le> currentStep < 4\<close>.
\<close>

theorem currentStep_in_range:
  "reachable st \<Longrightarrow> 0 \<le> currentStep st \<and> currentStep st < 4"
proof (induction rule: reachable.induct)
  case (reachable_mounted st r)
  then show ?case using mounted_range by blast
qed

text \<open>The theorem at the state reached by typing a valid name and advancing.\<close>

theorem currentStep_in_range_witness:
  "reachable (initial\<lparr>currentStep := 1,
       formData := (formData initial)\<lparr>name := lit ''Ada Byron''\<rparr>, errors := [Name \<mapsto> []]\<rparr>) \<and>
   0 \<le> currentStep (initial\<lparr>currentStep := 1,
       formData := (formData initial)\<lparr>name := lit ''Ada Byron''\<rparr>, errors := [Name \<mapsto> []]\<rparr>) \<and>
   currentStep (initial\<lparr>currentStep := 1,
       formData := (formData initial)\<lparr>name := lit ''Ada Byron''\<rparr>, errors := [Name \<mapsto> []]\<rparr>) < 4"
proof -
  let ?s1 = "initial\<lparr>formData := (formData initial)\<lparr>name := lit ''Ada Byron''\<rparr>, errors := [Name \<mapsto> []]\<rparr>"
  let ?s2 = "initial\<lparr>currentStep := 1,
       formData := (formData initial)\<lparr>name := lit ''Ada Byron''\<rparr>, errors := [Name \<mapsto> []]\<rparr>"
  have h1: "handle (Change (lit ''Ada Byron'')) initial = Some ?s1"
    by (simp add: onChange_def currentField_simps initial_def)
  have h2: "handle Next ?s1 = Some ?s2"
    using trim_Ada handleNext_ok_lt [of ?s1 Name]
    by (simp add: currentField_simps initial_def)
  have "run initial [Change (lit ''Ada Byron''), Next] = Some ?s2"
    unfolding run.simps h1 option.case h2 ..
  then have r: "reachable ?s2" by (rule reachable_run)
  from r currentStep_in_range [OF r] show ?thesis by blast
qed

section \<open>Fields of the steps already passed\<close>











end
